theory Spec2Isabelle
  imports Main
begin

section \<open>Python values, dictionaries and exceptions\<close>

text \<open>
  The library is dynamically typed: resources are JSON documents held as Python
  dictionaries, lists, strings, numbers and \<open>None\<close>, rows are tuples of arbitrary values.
  \<open>value\<close> is the part of Python's value universe these functions touch. A dictionary is
  its list of items in insertion order (keys pairwise distinct and hashable), so it keeps the key order
  that a Python dictionary keeps; equality on \<open>value\<close> is structural and therefore finer
  than Python's \<open>==\<close> on dictionaries, which ignores the order. \<open>VObject\<close> stands for an
  object of any other class (a bound method, a \<open>datetime\<close>, an \<open>AccessEntry\<close>): a class
  name and the data it carries. Floating-point numbers are not represented.
\<close>

datatype "value" =
    VNone
  | VBool bool
  | VInt int
  | VStr string
  | VTuple "value list"
  | VList "value list"
  | VDict "(value \<times> value) list"
  | VObject string "value list"

type_synonym dict = "(value \<times> value) list"

text \<open>
  Exceptions are values. \<open>ValueError\<close> carries its message template and the values
  formatted into it, so that no model of \<open>str()\<close> is needed; \<open>KeyError\<close> carries the
  missing key; \<open>ServiceError\<close> is whatever the HTTP transport raises.
\<close>

datatype error =
    KeyError "value"
  | ValueError string "value list"
  | TypeError string
  | IndexError
  | AttributeError string
  | ServiceError "value"

text \<open>Lists and dictionaries cannot be dictionary keys; a tuple can when its items can.\<close>

fun hashable :: "value \<Rightarrow> bool" where
  "hashable (VList xs) = False"
| "hashable (VDict kvs) = False"
| "hashable (VTuple xs) = list_all hashable xs"
| "hashable v = True"

text \<open>\<open>k in d\<close>, \<open>d[k]\<close>, \<open>d.get(k, default)\<close>, \<open>d[k] = v\<close> and \<open>d.pop(k, default)\<close>.\<close>

definition dict_contains :: "dict \<Rightarrow> value \<Rightarrow> bool" where
  "dict_contains d k = (map_of d k \<noteq> None)"

definition dict_getitem :: "dict \<Rightarrow> value \<Rightarrow> error + value" where
  "dict_getitem d k =
     (if \<not> hashable k then Inl (TypeError ''unhashable type'')
      else case map_of d k of None \<Rightarrow> Inl (KeyError k) | Some v \<Rightarrow> Inr v)"

definition dict_get :: "dict \<Rightarrow> value \<Rightarrow> value \<Rightarrow> error + value" where
  "dict_get d k dflt =
     (if \<not> hashable k then Inl (TypeError ''unhashable type'')
      else case map_of d k of None \<Rightarrow> Inr dflt | Some v \<Rightarrow> Inr v)"

fun dict_update :: "dict \<Rightarrow> value \<Rightarrow> value \<Rightarrow> dict" where
  "dict_update [] k v = [(k, v)]"
| "dict_update ((k', v') # d) k v =
     (if k' = k then (k, v) # d else (k', v') # dict_update d k v)"

definition dict_setitem :: "dict \<Rightarrow> value \<Rightarrow> value \<Rightarrow> error + dict" where
  "dict_setitem d k v =
     (if \<not> hashable k then Inl (TypeError ''unhashable type'') else Inr (dict_update d k v))"

definition dict_pop :: "dict \<Rightarrow> value \<Rightarrow> value \<Rightarrow> value \<times> dict" where
  "dict_pop d k dflt =
     (case map_of d k of
        None \<Rightarrow> (dflt, d)
      | Some v \<Rightarrow> (v, filter (\<lambda>kv. fst kv \<noteq> k) d))"

text \<open>
  Iteration, as a \<open>for\<close> loop sees a value: the items of a list or tuple, the keys of a
  dictionary, the one-character substrings of a string; anything else is not iterable.
\<close>

fun py_iter :: "value \<Rightarrow> error + value list" where
  "py_iter (VList xs) = Inr xs"
| "py_iter (VTuple xs) = Inr xs"
| "py_iter (VDict kvs) = Inr (map fst kvs)"
| "py_iter (VStr s) = Inr (map (\<lambda>c. VStr [c]) s)"
| "py_iter v = Inl (TypeError ''object is not iterable'')"

section \<open>Schema fields\<close>

text \<open>
  Modelled from the spec: the class \<open>SchemaField\<close> (module \<open>google.cloud.bigquery.schema\<close>)
  is imported by \<open>table.py\<close> but is not among the sources. The spec's data model gives it a
  name, a type tag, a mode, an optional description and an ordered sequence of child
  fields, immutable once built. The constructor stores what it is given, so the four
  scalar attributes are values (\<open>VNone\<close> is the absent description) and the children are
  one immutable sequence, whether the caller passed a tuple or a list.
\<close>

datatype SchemaField =
  SchemaField (name: "value") (field_type: "value") (mode: "value")
              (description: "value") (fields: "SchemaField list")

text \<open>
  \<open>_parse_schema_resource\<close> returns the tuple \<open>()\<close> on one path and a list on the other;
  Python keeps the two apart (\<open>() == []\<close> is false), so the result records which it is.
\<close>

datatype 'a pyseq = PyTuple "'a list" | PyList "'a list"

fun items :: "'a pyseq \<Rightarrow> 'a list" where
  "items (PyTuple xs) = xs"
| "items (PyList xs) = xs"

subsection \<open>Decoding: \<open>_parse_schema_resource\<close>\<close>

text \<open>
  \<open>'fields' in info\<close> and \<open>info['fields']\<close> on whatever \<open>info\<close> is: the docstring asks for a
  mapping, and on a dictionary they are the key test and the lookup. On a list or tuple
  \<open>in\<close> is membership, on a string it is the substring test, and subscripting either by a
  string raises \<open>TypeError\<close>; so does anything else.
\<close>

fun is_substring :: "string \<Rightarrow> string \<Rightarrow> bool" where
  "is_substring t [] = (t = [])"
| "is_substring t (c # s) = (take (length t) (c # s) = t \<or> is_substring t s)"

fun py_contains_str :: "value \<Rightarrow> string \<Rightarrow> error + bool" where
  "py_contains_str (VDict d) k = Inr (dict_contains d (VStr k))"
| "py_contains_str (VList xs) k = Inr (VStr k \<in> set xs)"
| "py_contains_str (VTuple xs) k = Inr (VStr k \<in> set xs)"
| "py_contains_str (VStr s) k = Inr (is_substring k s)"
| "py_contains_str v k = Inl (TypeError ''argument is not iterable'')"

fun py_getitem_str :: "value \<Rightarrow> string \<Rightarrow> error + value" where
  "py_getitem_str (VDict d) k = dict_getitem d (VStr k)"
| "py_getitem_str v k = Inl (TypeError ''not subscriptable by a string'')"

text \<open>
  Sizes, for the termination of the decoder: what a lookup or an iteration yields is
  smaller than what it was taken from.
\<close>

lemma size_map_of_less:
  "map_of d k = Some v \<Longrightarrow> size v < size_list (size_prod size size) d"
  by (induction d) (auto split: if_splits)

lemma size_member_less: "x \<in> set xs \<Longrightarrow> size x < Suc (size_list size xs)"
  by (induction xs) auto

lemma sum_size_le_size_list: "sum_list (map size xs) \<le> size_list size xs"
  by (induction xs) auto

lemma sum_size_keys_le:
  "sum_list (map size (map fst d)) \<le> size_list (size_prod size size) d"
  by (induction d) auto

lemma sum_size_chars: "sum_list (map size (map (\<lambda>c. VStr [c]) s)) = 0"
  by (induction s) auto

lemma py_iter_size:
  "py_iter v = Inr xs \<Longrightarrow> sum_list (map size xs) \<le> size v"
  using sum_size_le_size_list [of xs] sum_size_keys_le sum_size_chars
  by (cases v) (auto simp: le_Suc_eq)

lemma py_getitem_str_size:
  "py_getitem_str v k = Inr w \<Longrightarrow> size w < size v"
  by (cases v)
     (auto simp: dict_getitem_def less_Suc_eq dest: size_map_of_less
           split: if_splits option.splits)

text \<open>
  \<open>parse_schema_resource\<close> is the function (Isabelle names cannot start with an
  underscore), \<open>parse_schema_loop\<close> its \<open>for\<close> loop over \<open>info['fields']\<close>. The loop body
  subscripts \<open>r_field\<close> by a string first, which raises \<open>TypeError\<close> unless \<open>r_field\<close> is
  a dictionary, and \<open>KeyError\<close> when the dictionary has no \<open>name\<close> or no \<open>type\<close>.
\<close>

function parse_schema_resource :: "value \<Rightarrow> error + SchemaField pyseq"
  and parse_schema_loop :: "value list \<Rightarrow> error + SchemaField list" where
  "parse_schema_resource info =
     (case py_contains_str info ''fields'' of
        Inl e \<Rightarrow> Inl e
      | Inr present \<Rightarrow>
          if \<not> present then Inr (PyTuple [])
          else case py_getitem_str info ''fields'' of
                 Inl e \<Rightarrow> Inl e
               | Inr fs \<Rightarrow>
                   (case py_iter fs of
                      Inl e \<Rightarrow> Inl e
                    | Inr r_fields \<Rightarrow>
                        (case parse_schema_loop r_fields of
                           Inl e \<Rightarrow> Inl e
                         | Inr schema \<Rightarrow> Inr (PyList schema))))"
| "parse_schema_loop [] = Inr []"
| "parse_schema_loop (r_field # rest) =
     (case r_field of
        VDict d \<Rightarrow>
          (case dict_getitem d (VStr ''name'') of
             Inl e \<Rightarrow> Inl e
           | Inr nm \<Rightarrow>
          (case dict_getitem d (VStr ''type'') of
             Inl e \<Rightarrow> Inl e
           | Inr ty \<Rightarrow>
          (case dict_get d (VStr ''mode'') (VStr ''NULLABLE'') of
             Inl e \<Rightarrow> Inl e
           | Inr md \<Rightarrow>
          (case dict_get d (VStr ''description'') VNone of
             Inl e \<Rightarrow> Inl e
           | Inr ds \<Rightarrow>
          (case parse_schema_resource r_field of
             Inl e \<Rightarrow> Inl e
           | Inr sub_fields \<Rightarrow>
          (case parse_schema_loop rest of
             Inl e \<Rightarrow> Inl e
           | Inr schema \<Rightarrow> Inr (SchemaField nm ty md ds (items sub_fields) # schema)))))))
      | _ \<Rightarrow> Inl (TypeError ''not subscriptable by a string''))"
  by pat_completeness auto

termination
proof (relation "measures
    [\<lambda>x. case x of Inl info \<Rightarrow> size info | Inr xs \<Rightarrow> sum_list (map size xs),
     \<lambda>x. case x of Inl info \<Rightarrow> 0 | Inr xs \<Rightarrow> Suc (length xs)]", goal_cases)
  case 1
  show ?case by simp
next
  case (2 info present fs r_fields)
  from py_getitem_str_size [OF 2(3)] py_iter_size [OF 2(4)] show ?case by simp
next
  case (3 r_field rest d)
  have "sum_list (map size rest) = 0 \<or> 0 < sum_list (map size rest)" by arith
  with 3 show ?case by auto
next
  case 4
  then show ?case by simp
qed

subsection \<open>Encoding: \<open>_build_schema_resource\<close>\<close>

text \<open>
  The result is the list \<open>infos\<close>. Each \<open>info\<close> starts as the three-key dictionary literal;
  \<open>description\<close> is added when it is not \<open>None\<close>, \<open>fields\<close> when the field has children
  (\<open>if field.fields:\<close> is the truth value of the sequence, false when it is empty).
\<close>

fun build_schema_resource :: "SchemaField list \<Rightarrow> value list" where
  "build_schema_resource [] = []"
| "build_schema_resource (SchemaField nm ty md ds sub # rest) =
     VDict ([(VStr ''name'', nm), (VStr ''type'', ty), (VStr ''mode'', md)]
            @ (if ds \<noteq> VNone then [(VStr ''description'', ds)] else [])
            @ (if sub \<noteq> [] then [(VStr ''fields'', VList (build_schema_resource sub))] else []))
     # build_schema_resource rest"

section \<open>What the modules import\<close>

text \<open>
  The functions below call code that lives outside this repository's sources: the HTTP
  connection, the converter table \<open>_SCALAR_VALUE_TO_JSON_ROW\<close> of
  \<open>google.cloud.bigquery._helpers\<close>, the date helpers of \<open>google.cloud._helpers\<close>, and
  Python's built-in \<open>int\<close> and \<open>float\<close>. They are parameters of the model, gathered in
  one record; every theorem holds for all of them.
  \<^item> \<open>api_request\<close> is \<open>client._connection.api_request\<close>: it returns the parsed JSON
    response or raises.
  \<^item> \<open>SCALAR_VALUE_TO_JSON_ROW\<close> maps a field type to its converter, if it has one; a
    converter may raise.
  \<^item> \<open>datetime_from_millis v\<close> is \<open>_datetime_from_microseconds(1000.0 * v)\<close>.
  \<^item> \<open>object_attributes\<close> are the special attributes that every instance has
    (\<open>__class__\<close>, \<open>__init__\<close>, \<open>__doc__\<close>, ...), with their values.
\<close>

record request =
  req_method :: string
  req_path :: string
  req_data :: "value"
  req_headers :: "value"

record env =
  api_request :: "request \<Rightarrow> error + value"
  SCALAR_VALUE_TO_JSON_ROW :: "value \<Rightarrow> (value \<Rightarrow> error + value) option"
  py_int :: "value \<Rightarrow> error + value"
  py_float :: "value \<Rightarrow> error + value"
  datetime_from_millis :: "value \<Rightarrow> value"
  object_attributes :: "string \<Rightarrow> value option"

section \<open>Tables\<close>

text \<open>
  A \<open>Table\<close> object: its identity, the property bag \<open>_properties\<close> and the tuple
  \<open>_schema\<close>. The identity strings are typed as the docstrings type them.
\<close>

record Table =
  t_project :: string
  t_dataset_id :: string
  t_table_id :: string
  t_properties :: dict
  t_schema :: "SchemaField list"

definition TABLE_HAS_NO_SCHEMA :: string where
  "TABLE_HAS_NO_SCHEMA =
     ''Table has no schema:  call '' @ [CHR 0x27] @ ''client.get_table()'' @ [CHR 0x27]"

definition Table_path :: "Table \<Rightarrow> string" where
  "Table_path t =
     ''/projects/'' @ t_project t @ ''/datasets/'' @ t_dataset_id t @ ''/tables/'' @ t_table_id t"

subsection \<open>\<open>Table.row_from_mapping\<close>\<close>

text \<open>
  \<open>row_value\<close> is one pass through the loop body: the value appended for \<open>field\<close>, or
  the exception raised. \<open>mapping[field.name]\<close> raises \<open>KeyError\<close> for a missing key.
\<close>

definition row_value :: "dict \<Rightarrow> SchemaField \<Rightarrow> error + value" where
  "row_value mapping field =
     (if mode field = VStr ''REQUIRED'' then dict_getitem mapping (name field)
      else if mode field = VStr ''REPEATED'' then dict_get mapping (name field) (VTuple [])
      else if mode field = VStr ''NULLABLE'' then dict_get mapping (name field) VNone
      else Inl (ValueError ''Unknown field mode: {}'' [mode field]))"

fun row_from_mapping_loop :: "dict \<Rightarrow> SchemaField list \<Rightarrow> error + value list" where
  "row_from_mapping_loop mapping [] = Inr []"
| "row_from_mapping_loop mapping (field # rest) =
     (case row_value mapping field of
        Inl e \<Rightarrow> Inl e
      | Inr v \<Rightarrow>
          (case row_from_mapping_loop mapping rest of
             Inl e \<Rightarrow> Inl e
           | Inr row \<Rightarrow> Inr (v # row)))"

definition row_from_mapping :: "Table \<Rightarrow> dict \<Rightarrow> error + value" where
  "row_from_mapping t mapping =
     (if length (t_schema t) = 0 then Inl (ValueError TABLE_HAS_NO_SCHEMA [])
      else case row_from_mapping_loop mapping (t_schema t) of
             Inl e \<Rightarrow> Inl e
           | Inr row \<Rightarrow> Inr (VTuple row))"

subsection \<open>\<open>Table.insert_data\<close>\<close>

text \<open>
  The inner loop runs over \<open>zip(self._schema, row)\<close>, which stops at the shorter of the
  two. \<open>convert_value\<close> is the lookup of the converter and its application (a type
  without converter, such as \<open>STRING\<close>, leaves the value as it is), \<open>insert_row_loop\<close>
  threads \<open>row_info\<close>, \<open>insert_rows_loop\<close> is the outer loop with the index of
  \<open>enumerate\<close>; its result is \<open>rows_info\<close>.
\<close>

definition convert_value :: "env \<Rightarrow> SchemaField \<Rightarrow> value \<Rightarrow> error + value" where
  "convert_value E field v =
     (if \<not> hashable (field_type field) then Inl (TypeError ''unhashable type'')
      else case SCALAR_VALUE_TO_JSON_ROW E (field_type field) of
             None \<Rightarrow> Inr v
           | Some converter \<Rightarrow> converter v)"

fun insert_row_loop :: "env \<Rightarrow> (SchemaField \<times> value) list \<Rightarrow> dict \<Rightarrow> error + dict" where
  "insert_row_loop E [] row_info = Inr row_info"
| "insert_row_loop E ((field, v) # rest) row_info =
     (case convert_value E field v of
        Inl e \<Rightarrow> Inl e
      | Inr v' \<Rightarrow>
          (case dict_setitem row_info (name field) v' of
             Inl e \<Rightarrow> Inl e
           | Inr row_info' \<Rightarrow> insert_row_loop E rest row_info'))"

fun insert_rows_loop ::
  "env \<Rightarrow> SchemaField list \<Rightarrow> value list option \<Rightarrow> nat \<Rightarrow> value list list \<Rightarrow> error + value list"
where
  "insert_rows_loop E schema row_ids index [] = Inr []"
| "insert_rows_loop E schema row_ids index (row # rows) =
     (case insert_row_loop E (zip schema row) [] of
        Inl e \<Rightarrow> Inl e
      | Inr row_info \<Rightarrow>
          (case (case row_ids of
                   None \<Rightarrow> Inr [(VStr ''json'', VDict row_info)]
                 | Some ids \<Rightarrow>
                     if index < length ids
                     then Inr [(VStr ''json'', VDict row_info), (VStr ''insertId'', ids ! index)]
                     else Inl IndexError) of
             Inl e \<Rightarrow> Inl e
           | Inr info \<Rightarrow>
               (case insert_rows_loop E schema row_ids (Suc index) rows of
                  Inl e \<Rightarrow> Inl e
                | Inr rows_info \<Rightarrow> Inr (VDict info # rows_info))))"

text \<open>The loop over \<open>response.get('insertErrors', ())\<close>.\<close>

fun insert_errors_loop :: "env \<Rightarrow> value list \<Rightarrow> error + value list" where
  "insert_errors_loop E [] = Inr []"
| "insert_errors_loop E (err # rest) =
     (case py_getitem_str err ''index'' of
        Inl e \<Rightarrow> Inl e
      | Inr i \<Rightarrow>
     (case py_int E i of
        Inl e \<Rightarrow> Inl e
      | Inr n \<Rightarrow>
     (case py_getitem_str err ''errors'' of
        Inl e \<Rightarrow> Inl e
      | Inr es \<Rightarrow>
     (case insert_errors_loop E rest of
        Inl e \<Rightarrow> Inl e
      | Inr errors \<Rightarrow>
          Inr (VDict [(VStr ''index'', n), (VStr ''errors'', es)] # errors)))))"

definition insert_errors :: "env \<Rightarrow> value \<Rightarrow> error + value" where
  "insert_errors E response =
     (case response of
        VDict d \<Rightarrow>
          (case dict_get d (VStr ''insertErrors'') (VTuple []) of
             Inl e \<Rightarrow> Inl e
           | Inr ies \<Rightarrow>
               (case py_iter ies of
                  Inl e \<Rightarrow> Inl e
                | Inr errs \<Rightarrow>
                    (case insert_errors_loop E errs of
                       Inl e \<Rightarrow> Inl e
                     | Inr errors \<Rightarrow> Inr (VList errors))))
      | _ \<Rightarrow> Inl (AttributeError ''get''))"

text \<open>
  The result of a call that talks to the service is the value returned or the exception
  raised, together with the requests that were issued, in order. An optional argument
  that is not passed is \<open>VNone\<close>.
\<close>

definition insert_data ::
  "env \<Rightarrow> Table \<Rightarrow> value list list \<Rightarrow> value list option \<Rightarrow> value \<Rightarrow> value \<Rightarrow> value
     \<Rightarrow> (error + value) \<times> request list" where
  "insert_data E t rows row_ids skip_invalid_rows ignore_unknown_values template_suffix =
     (if length (t_schema t) = 0 then (Inl (ValueError TABLE_HAS_NO_SCHEMA []), [])
      else case insert_rows_loop E (t_schema t) row_ids 0 rows of
             Inl e \<Rightarrow> (Inl e, [])
           | Inr rows_info \<Rightarrow>
               (let data = [(VStr ''rows'', VList rows_info)]
                      @ (if skip_invalid_rows \<noteq> VNone
                         then [(VStr ''skipInvalidRows'', skip_invalid_rows)] else [])
                      @ (if ignore_unknown_values \<noteq> VNone
                         then [(VStr ''ignoreUnknownValues'', ignore_unknown_values)] else [])
                      @ (if template_suffix \<noteq> VNone
                         then [(VStr ''templateSuffix'', template_suffix)] else []);
                    req = \<lparr>req_method = ''POST'', req_path = Table_path t @ ''/insertAll'',
                           req_data = VDict data, req_headers = VNone\<rparr>
                in case api_request E req of
                     Inl e \<Rightarrow> (Inl e, [req])
                   | Inr response \<Rightarrow> (insert_errors E response, [req])))"

subsection \<open>\<open>Table._set_properties\<close>\<close>

text \<open>
  \<open>dict.update\<close>, and the pattern \<open>if k in d: d[k] = f(d[k])\<close> used for the time stamps.
  A method that changes the object returns the object as it is left, and the exception
  if one was raised on the way.
\<close>

definition dict_update_all :: "dict \<Rightarrow> dict \<Rightarrow> dict" where
  "dict_update_all d other = fold (\<lambda>kv acc. dict_update acc (fst kv) (snd kv)) other d"

definition convert_if_present ::
  "(value \<Rightarrow> error + value) \<Rightarrow> string \<Rightarrow> dict \<Rightarrow> error + dict" where
  "convert_if_present f k d =
     (if dict_contains d (VStr k)
      then case dict_getitem d (VStr k) of
             Inl e \<Rightarrow> Inl e
           | Inr v \<Rightarrow> (case f v of Inl e \<Rightarrow> Inl e | Inr v' \<Rightarrow> Inr (dict_update d (VStr k) v'))
      else Inr d)"

definition Table_set_properties :: "env \<Rightarrow> Table \<Rightarrow> dict \<Rightarrow> error option \<times> Table" where
  "Table_set_properties E t api_response =
     (let t1 = t\<lparr>t_properties := []\<rparr>;
          popped = dict_pop api_response (VStr ''schema'') (VDict [(VStr ''fields'', VTuple [])])
      in case parse_schema_resource (fst popped) of
           Inl e \<Rightarrow> (Some e, t1)
         | Inr schema \<Rightarrow>
             (let t2 = t1\<lparr>t_schema := items schema\<rparr>
              in case convert_if_present (py_float E) ''creationTime'' (snd popped) of
                   Inl e \<Rightarrow> (Some e, t2)
                 | Inr c1 \<Rightarrow>
                (case convert_if_present (py_float E) ''lastModifiedTime'' c1 of
                   Inl e \<Rightarrow> (Some e, t2)
                 | Inr c2 \<Rightarrow>
                (case convert_if_present (py_float E) ''expirationTime'' c2 of
                   Inl e \<Rightarrow> (Some e, t2)
                 | Inr cleaned \<Rightarrow>
                     (None, t2\<lparr>t_properties := dict_update_all (t_properties t2) cleaned\<rparr>)))))"

section \<open>Datasets\<close>

subsection \<open>Access entries\<close>

datatype AccessEntry =
  AccessEntry (role: "value") (entity_type: "value") (entity_id: "value")

definition ENTITY_TYPES :: "value list" where
  "ENTITY_TYPES =
     [VStr ''userByEmail'', VStr ''groupByEmail'', VStr ''domain'', VStr ''specialGroup'',
      VStr ''view'']"

text \<open>\<open>AccessEntry.__init__\<close>: the three checks, then the attributes are stored.\<close>

definition AccessEntry_init :: "value \<Rightarrow> value \<Rightarrow> value \<Rightarrow> error + AccessEntry" where
  "AccessEntry_init r ty ident =
     (if \<not> hashable ty then Inl (TypeError ''unhashable type'')
      else if ty \<notin> set ENTITY_TYPES
      then Inl (ValueError ''Entity type %r not among: %s'' [ty])
      else if ty = VStr ''view''
      then (if r \<noteq> VNone
            then Inl (ValueError ''Role must be None for a view. Received role: %r'' [r])
            else Inr (AccessEntry r ty ident))
      else (if r = VNone
            then Inl (ValueError ''Role must be set for entity type %r'' [ty])
            else Inr (AccessEntry r ty ident)))"

text \<open>
  \<open>Dataset._parse_access_entries\<close>. Each entry is copied, \<open>role\<close> is popped, and
  \<open>popitem\<close> takes the item inserted last (\<open>KeyError\<close> on an empty dictionary); whatever
  is left over is an error. An entry that is not a dictionary has no \<open>copy\<close> method, or,
  for a list, a \<open>pop\<close> that rejects two arguments.
\<close>

fun parse_access_entries_loop :: "value list \<Rightarrow> error + AccessEntry list" where
  "parse_access_entries_loop [] = Inr []"
| "parse_access_entries_loop (entry # rest) =
     (case entry of
        VDict d \<Rightarrow>
          (let popped = dict_pop d (VStr ''role'') VNone
           in if snd popped = [] then Inl (KeyError (VStr ''popitem(): dictionary is empty''))
              else if length (butlast (snd popped)) \<noteq> 0
              then Inl (ValueError ''Entry has unexpected keys remaining.''
                          [VDict (butlast (snd popped))])
              else case AccessEntry_init (fst popped) (fst (last (snd popped)))
                          (snd (last (snd popped))) of
                     Inl e \<Rightarrow> Inl e
                   | Inr a \<Rightarrow>
                       (case parse_access_entries_loop rest of
                          Inl e \<Rightarrow> Inl e
                        | Inr result \<Rightarrow> Inr (a # result)))
      | VList xs \<Rightarrow> Inl (TypeError ''pop expected at most 1 argument, got 2'')
      | _ \<Rightarrow> Inl (AttributeError ''copy''))"

definition parse_access_entries :: "value \<Rightarrow> error + AccessEntry list" where
  "parse_access_entries access =
     (case py_iter access of
        Inl e \<Rightarrow> Inl e
      | Inr entries \<Rightarrow> parse_access_entries_loop entries)"

subsection \<open>The \<open>Dataset\<close> object and its properties\<close>

record Dataset =
  d_project :: string
  d_dataset_id :: string
  d_client :: "value"
  d_properties :: dict
  d_access_entries :: "AccessEntry list"










subsection \<open>\<open>Dataset._set_properties\<close>\<close>

definition Dataset_set_properties :: "env \<Rightarrow> Dataset \<Rightarrow> dict \<Rightarrow> error option \<times> Dataset" where
  "Dataset_set_properties E d api_response =
     (let d1 = d\<lparr>d_properties := []\<rparr>;
          popped = dict_pop api_response (VStr ''access'') (VTuple [])
      in case parse_access_entries (fst popped) of
           Inl e \<Rightarrow> (Some e, d1)
         | Inr entries \<Rightarrow>
             (let d2 = d1\<lparr>d_access_entries := entries\<rparr>
              in case convert_if_present (py_float E) ''creationTime'' (snd popped) of
                   Inl e \<Rightarrow> (Some e, d2)
                 | Inr c1 \<Rightarrow>
                (case convert_if_present (py_float E) ''lastModifiedTime'' c1 of
                   Inl e \<Rightarrow> (Some e, d2)
                 | Inr c2 \<Rightarrow>
                (case convert_if_present (py_int E) ''defaultTableExpirationMs'' c2 of
                   Inl e \<Rightarrow> (Some e, d2)
                 | Inr cleaned \<Rightarrow>
                     (None, d2\<lparr>d_properties := dict_update_all (d_properties d2) cleaned\<rparr>)))))"

section \<open>\<open>Client.update_dataset\<close>\<close>

text \<open>
  \<open>f.split('_')\<close> and \<open>str.capitalize\<close>. Characters are bytes here, and \<open>capitalize\<close> is
  modelled on the ASCII letters: the first character in upper case, all others in
  lower case.
\<close>

fun split :: "char \<Rightarrow> string \<Rightarrow> string list" where
  "split sep [] = [[]]"
| "split sep (c # s) =
     (if c = sep then [] # split sep s
      else case split sep s of
             w # ws \<Rightarrow> (c # w) # ws
           | [] \<Rightarrow> [[c]])"







section \<open>Vocabulary of the specification\<close>

subsection \<open>Canonical schema JSON\<close>

text \<open>
  The spec's round-trip property speaks of schema JSON in canonical form: the keys of a
  field object in the fixed order \<open>name\<close>, \<open>type\<close>, \<open>mode\<close>, \<open>description\<close>, \<open>fields\<close>,
  and optional keys omitted when absent. \<open>canonical_field\<close> says so of one field object
  and, recursively, of its children: no other keys, no \<open>description\<close> holding \<open>null\<close>,
  no empty \<open>fields\<close> array. The flag says whether \<open>mode\<close> counts among the optional keys
  (as the wire shape \<open>"mode"?\<close> has it) or has to be there.
\<close>

function (sequential) canonical_field :: "bool \<Rightarrow> value \<Rightarrow> bool" where
  "canonical_field mode_optional (VDict d) =
     (map fst d =
        [VStr ''name'', VStr ''type'']
        @ (if dict_contains d (VStr ''mode'') then [VStr ''mode''] else [])
        @ (if dict_contains d (VStr ''description'') then [VStr ''description''] else [])
        @ (if dict_contains d (VStr ''fields'') then [VStr ''fields''] else [])
      \<and> (mode_optional \<or> dict_contains d (VStr ''mode''))
      \<and> map_of d (VStr ''description'') \<noteq> Some VNone
      \<and> (case map_of d (VStr ''fields'') of
            None \<Rightarrow> True
          | Some (VList fs) \<Rightarrow> fs \<noteq> [] \<and> list_all (canonical_field mode_optional) fs
          | Some _ \<Rightarrow> False))"
| "canonical_field mode_optional v = False"
  by pat_completeness auto
termination
proof (relation "measure (\<lambda>(b, v). size v)", goal_cases)
  case 1
  show ?case by simp
next
  case (2 mode_optional d fs' fs x)
  from 2 have "size (VList fs) < size_list (size_prod size size) d"
    using size_map_of_less by metis
  moreover from 2 have "size x < size (VList fs)"
    using size_member_less [of x fs] by simp
  ultimately show ?case using 2 by simp
qed

text \<open>What decoding a field object leaves as its children, against its \<open>fields\<close> key.\<close>

definition fields_agree :: "value \<Rightarrow> SchemaField list \<Rightarrow> bool" where
  "fields_agree info sub =
     (case info of
        VDict d \<Rightarrow>
          (case map_of d (VStr ''fields'') of
             None \<Rightarrow> sub = []
           | Some v \<Rightarrow> sub \<noteq> [] \<and> v = VList (build_schema_resource sub))
      | _ \<Rightarrow> True)"

subsection \<open>Row projection and row encoding\<close>

text \<open>
  The three modes of the data model; a \<open>REQUIRED\<close> field that the mapping lacks; and the
  value the spec gives a field in the projected row: the mapping's value when there is
  one, else the empty sequence for \<open>REPEATED\<close> and null otherwise.
\<close>

definition known_modes :: "value list" where
  "known_modes = [VStr ''REQUIRED'', VStr ''NULLABLE'', VStr ''REPEATED'']"

definition known_mode :: "SchemaField \<Rightarrow> bool" where
  "known_mode f = (mode f \<in> set known_modes)"

definition missing_required :: "dict \<Rightarrow> SchemaField \<Rightarrow> bool" where
  "missing_required mapping f = (mode f = VStr ''REQUIRED'' \<and> \<not> dict_contains mapping (name f))"

definition projected_value :: "dict \<Rightarrow> SchemaField \<Rightarrow> value" where
  "projected_value mapping f =
     (case map_of mapping (name f) of
        Some v \<Rightarrow> v
      | None \<Rightarrow> if mode f = VStr ''REPEATED'' then VTuple [] else VNone)"


subsection \<open>Partial updates and property bags\<close>




definition dict_keys :: "dict \<Rightarrow> value set" where
  "dict_keys d = fst ` set d"

subsection \<open>Example data\<close>

text \<open>
  An environment for the examples: the service answers every request with the empty
  object, no field type has a converter, \<open>int\<close> accepts integers, \<open>float\<close> and the date
  helper wrap their argument, and \<open>object\<close> contributes no attribute.
\<close>

definition example_env :: env where
  "example_env =
     \<lparr>api_request = (\<lambda>req. Inr (VDict [])),
      SCALAR_VALUE_TO_JSON_ROW = (\<lambda>ty. None),
      py_int = (\<lambda>v. case v of VInt n \<Rightarrow> Inr (VInt n)
                           | _ \<Rightarrow> Inl (ValueError ''invalid literal for int()'' [v])),
      py_float = (\<lambda>v. Inr (VObject ''float'' [v])),
      datetime_from_millis = (\<lambda>v. VObject ''datetime'' [v]),
      object_attributes = (\<lambda>a. None)\<rparr>"

definition nested_fields :: "value list" where
  "nested_fields =
     [VDict [(VStr ''name'', VStr ''address''), (VStr ''type'', VStr ''RECORD''),
             (VStr ''mode'', VStr ''REPEATED''), (VStr ''description'', VStr ''where''),
             (VStr ''fields'',
              VList [VDict [(VStr ''name'', VStr ''geo''), (VStr ''type'', VStr ''RECORD''),
                            (VStr ''mode'', VStr ''NULLABLE''),
                            (VStr ''fields'',
                             VList [VDict [(VStr ''name'', VStr ''lat''),
                                           (VStr ''type'', VStr ''FLOAT''),
                                           (VStr ''mode'', VStr ''REQUIRED'')]])],
                     VDict [(VStr ''name'', VStr ''street''), (VStr ''type'', VStr ''STRING''),
                            (VStr ''mode'', VStr ''NULLABLE'')]])],
      VDict [(VStr ''name'', VStr ''id''), (VStr ''type'', VStr ''INTEGER''),
             (VStr ''mode'', VStr ''REQUIRED'')]]"

definition abc_table :: Table where
  "abc_table =
     \<lparr>t_project = ''p'', t_dataset_id = ''d'', t_table_id = ''t'', t_properties = [],
      t_schema = [SchemaField (VStr ''a'') (VStr ''INTEGER'') (VStr ''REQUIRED'') VNone [],
                  SchemaField (VStr ''b'') (VStr ''INTEGER'') (VStr ''REPEATED'') VNone [],
                  SchemaField (VStr ''c'') (VStr ''INTEGER'') (VStr ''NULLABLE'') VNone []]\<rparr>"

definition required_then_bogus :: Table where
  "required_then_bogus =
     \<lparr>t_project = ''p'', t_dataset_id = ''d'', t_table_id = ''t'', t_properties = [],
      t_schema = [SchemaField (VStr ''a'') (VStr ''STRING'') (VStr ''REQUIRED'') VNone [],
                  SchemaField (VStr ''b'') (VStr ''STRING'') (VStr ''BOGUS'') VNone []]\<rparr>"


definition schemaless_table :: Table where
  "schemaless_table =
     \<lparr>t_project = ''p'', t_dataset_id = ''d'', t_table_id = ''t'', t_properties = [],
      t_schema = []\<rparr>"

definition stale_table :: Table where
  "stale_table =
     \<lparr>t_project = ''p'', t_dataset_id = ''d'', t_table_id = ''t'',
      t_properties = [(VStr ''friendlyName'', VStr ''old''), (VStr ''etag'', VStr ''v1'')],
      t_schema = [SchemaField (VStr ''gone'') (VStr ''STRING'') (VStr ''NULLABLE'') VNone []]\<rparr>"

definition fetched_table :: dict where
  "fetched_table =
     [(VStr ''etag'', VStr ''v2''),
      (VStr ''schema'', VDict [(VStr ''fields'',
          VList [VDict [(VStr ''name'', VStr ''a''), (VStr ''type'', VStr ''STRING''),
                        (VStr ''mode'', VStr ''REQUIRED'')]])]),
      (VStr ''creationTime'', VStr ''1437767599006'')]"



definition stale_dataset :: Dataset where
  "stale_dataset =
     \<lparr>d_project = ''p'', d_dataset_id = ''ds'', d_client = VNone,
      d_properties = [(VStr ''friendlyName'', VStr ''old''), (VStr ''etag'', VStr ''v1'')],
      d_access_entries = []\<rparr>"

definition fetched_dataset :: dict where
  "fetched_dataset =
     [(VStr ''etag'', VStr ''v2''),
      (VStr ''access'', VList [VDict [(VStr ''role'', VStr ''OWNER''),
                                      (VStr ''userByEmail'', VStr ''a@example.com'')]]),
      (VStr ''defaultTableExpirationMs'', VInt 5000)]"

section \<open>Lemmas about dictionaries\<close>

lemma keys_dict_update: "fst ` set (dict_update d k v) = insert k (fst ` set d)"
proof (induction d)
  case Nil
  show ?case by simp
next
  case (Cons a d)
  obtain k' v' where a: "a = (k', v')" by (cases a)
  show ?case
  proof (cases "k' = k")
    case True
    then show ?thesis by (simp add: a)
  next
    case False
    then show ?thesis using Cons.IH by (simp add: a insert_commute)
  qed
qed




lemma dict_keys_update: "dict_keys (dict_update d k v) = insert k (dict_keys d)"
  by (simp add: dict_keys_def keys_dict_update)

lemma dict_keys_update_all: "dict_keys (dict_update_all d other) = dict_keys d \<union> dict_keys other"
proof -
  have "dict_keys (fold (\<lambda>kv acc. dict_update acc (fst kv) (snd kv)) other d)
          = dict_keys d \<union> fst ` set other"
    by (induction other arbitrary: d) (simp_all add: dict_keys_update)
  then show ?thesis by (simp add: dict_update_all_def dict_keys_def)
qed

lemma dict_keys_contains: "dict_contains d k \<longleftrightarrow> k \<in> dict_keys d"
  by (simp add: dict_contains_def dict_keys_def map_of_eq_None_iff)

lemma dict_keys_convert_if_present:
  assumes "convert_if_present f k d = Inr d'"
  shows "dict_keys d' = dict_keys d"
proof (cases "dict_contains d (VStr k)")
  case True
  with assms obtain v where "d' = dict_update d (VStr k) v"
    by (auto simp: convert_if_present_def split: sum.splits)
  with True show ?thesis by (auto simp: dict_keys_update dict_keys_contains)
next
  case False
  with assms show ?thesis by (simp add: convert_if_present_def)
qed

lemma dict_keys_pop: "dict_keys (snd (dict_pop d k dflt)) = dict_keys d - {k}"
proof (cases "map_of d k")
  case None
  then have "k \<notin> dict_keys d" by (simp add: dict_keys_def map_of_eq_None_iff)
  with None show ?thesis by (simp add: dict_pop_def)
next
  case (Some v)
  have "fst ` set (filter (\<lambda>kv. fst kv \<noteq> k) d) = fst ` set d - {k}" by force
  with Some show ?thesis by (simp add: dict_pop_def dict_keys_def)
qed

section \<open>The schema codec\<close>

lemma canonical_shape:
  assumes "canonical_field False (VDict d)"
  shows "\<exists>n t m. d = [(VStr ''name'', n), (VStr ''type'', t), (VStr ''mode'', m)]
            @ (case map_of d (VStr ''description'') of
                 None \<Rightarrow> [] | Some v \<Rightarrow> [(VStr ''description'', v)])
            @ (case map_of d (VStr ''fields'') of
                 None \<Rightarrow> [] | Some v \<Rightarrow> [(VStr ''fields'', v)])"
  using assms
  by (auto simp: dict_contains_def map_eq_Cons_conv split: if_splits)

lemma canonical_fields_value:
  assumes "canonical_field b (VDict d)" and "map_of d (VStr ''fields'') = Some v"
  shows "\<exists>fs. v = VList fs \<and> fs \<noteq> [] \<and> list_all (canonical_field b) fs"
  using assms by (cases v) auto

lemma canonical_description:
  "canonical_field b (VDict d) \<Longrightarrow> map_of d (VStr ''description'') \<noteq> Some VNone"
  by simp

lemma build_schema_resource_Nil_iff: "build_schema_resource fs = [] \<longleftrightarrow> fs = []"
  by (cases fs rule: build_schema_resource.cases) auto

text \<open>
  Decoding then encoding, by induction along the recursion of the decoder: a canonical
  field object decodes, and its children encode to what its \<open>fields\<close> key held; a list
  of canonical field objects decodes to fields that encode to that list.
\<close>

lemma roundtrip_both:
  "canonical_field False info \<longrightarrow>
      (\<exists>s. parse_schema_resource info = Inr s \<and> fields_agree info (items s))"
  "list_all (canonical_field False) xs \<longrightarrow>
      (\<exists>fs. parse_schema_loop xs = Inr fs \<and> build_schema_resource fs = xs)"
proof (induction info and xs rule: parse_schema_resource_parse_schema_loop.induct)
  case (1 info)
  show ?case
  proof
    assume c: "canonical_field False info"
    then obtain d where i: "info = VDict d" by (cases info) auto
    show "\<exists>s. parse_schema_resource info = Inr s \<and> fields_agree info (items s)"
    proof (cases "map_of d (VStr ''fields'')")
      case None
      then show ?thesis by (simp add: i dict_contains_def fields_agree_def)
    next
      case (Some v)
      with c i obtain fs where v: "v = VList fs" and ne: "fs \<noteq> []"
        and all: "list_all (canonical_field False) fs"
        using canonical_fields_value by blast
      have pc: "py_contains_str info ''fields'' = Inr True"
        using Some by (simp add: i dict_contains_def)
      have g: "py_getitem_str info ''fields'' = Inr (VList fs)"
        using Some v by (simp add: i dict_getitem_def)
      have "\<exists>fs'. parse_schema_loop fs = Inr fs' \<and> build_schema_resource fs' = fs"
        using "1.IH" [OF pc _ g, of fs] all by simp
      then obtain fs' where p: "parse_schema_loop fs = Inr fs'"
        and b: "build_schema_resource fs' = fs" by blast
      from b ne have "fs' \<noteq> []" by auto
      with p b g pc Some v show ?thesis
        by (simp add: i fields_agree_def)
    qed
  qed
next
  case 2
  show ?case by simp
next
  case (3 r_field rest)
  show ?case
  proof
    assume a: "list_all (canonical_field False) (r_field # rest)"
    then have cr: "canonical_field False r_field"
      and rest: "list_all (canonical_field False) rest"
      by simp_all
    from cr obtain d where r: "r_field = VDict d" by (cases r_field) auto
    with cr have cd: "canonical_field False (VDict d)" by simp
    from canonical_shape [OF cd] obtain n t m where
      d: "d = [(VStr ''name'', n), (VStr ''type'', t), (VStr ''mode'', m)]
            @ (case map_of d (VStr ''description'') of
                 None \<Rightarrow> [] | Some v \<Rightarrow> [(VStr ''description'', v)])
            @ (case map_of d (VStr ''fields'') of
                 None \<Rightarrow> [] | Some v \<Rightarrow> [(VStr ''fields'', v)])"
      by blast
    have gn: "dict_getitem d (VStr ''name'') = Inr n"
      by (subst d) (simp add: dict_getitem_def)
    have gt: "dict_getitem d (VStr ''type'') = Inr t"
      by (subst d) (simp add: dict_getitem_def)
    have gm: "dict_get d (VStr ''mode'') (VStr ''NULLABLE'') = Inr m"
      by (subst d) (simp add: dict_get_def)
    define ds where
      "ds = (case map_of d (VStr ''description'') of None \<Rightarrow> VNone | Some v \<Rightarrow> v)"
    have gd: "dict_get d (VStr ''description'') VNone = Inr ds"
      by (simp add: dict_get_def ds_def split: option.splits)
    from "3.IH"(1) [OF r gn gt gm gd] cr obtain s where
      ps: "parse_schema_resource r_field = Inr s" and
      sub0: "fields_agree r_field (items s)"
      by blast
    from sub0 have sub: "(case map_of d (VStr ''fields'') of
              None \<Rightarrow> items s = []
            | Some v \<Rightarrow> items s \<noteq> [] \<and> v = VList (build_schema_resource (items s)))"
      by (simp add: r fields_agree_def)
    from "3.IH"(2) [OF r gn gt gm gd ps] rest obtain fs where
      pl: "parse_schema_loop rest = Inr fs" and bl: "build_schema_resource fs = rest"
      by blast
    have loop: "parse_schema_loop (r_field # rest) = Inr (SchemaField n t m ds (items s) # fs)"
      using r gn gt gm gd ps pl by simp
    have dn: "map_of d (VStr ''description'') \<noteq> Some VNone"
      using canonical_description [OF cd] .
    have "[(VStr ''name'', n), (VStr ''type'', t), (VStr ''mode'', m)]
            @ (if ds \<noteq> VNone then [(VStr ''description'', ds)] else [])
            @ (if items s \<noteq> []
               then [(VStr ''fields'', VList (build_schema_resource (items s)))] else [])
          = [(VStr ''name'', n), (VStr ''type'', t), (VStr ''mode'', m)]
            @ (case map_of d (VStr ''description'') of
                 None \<Rightarrow> [] | Some v \<Rightarrow> [(VStr ''description'', v)])
            @ (case map_of d (VStr ''fields'') of
                 None \<Rightarrow> [] | Some v \<Rightarrow> [(VStr ''fields'', v)])"
      using dn sub by (auto simp: ds_def split: option.splits)
    also have "\<dots> = d" by (rule d [symmetric])
    finally have "[(VStr ''name'', n), (VStr ''type'', t), (VStr ''mode'', m)]
            @ (if ds \<noteq> VNone then [(VStr ''description'', ds)] else [])
            @ (if items s \<noteq> []
               then [(VStr ''fields'', VList (build_schema_resource (items s)))] else [])
          = d" .
    then have "build_schema_resource (SchemaField n t m ds (items s) # fs) = r_field # rest"
      using r bl by simp
    with loop show "\<exists>fs. parse_schema_loop (r_field # rest) = Inr fs
                        \<and> build_schema_resource fs = r_field # rest"
      by blast
  qed
qed

section \<open>Claims about the schema codec\<close>

text \<open>
  Claim C1, amended. For every schema JSON \<open>x\<close> whose \<open>fields\<close> array is canonical and in
  which every field object carries its \<open>mode\<close> key (keys in the order \<open>name\<close>, \<open>type\<close>,
  \<open>mode\<close>, \<open>description\<close>, \<open>fields\<close>; \<open>description\<close> omitted when null, \<open>fields\<close> omitted
  when empty), at any depth of nesting, decoding succeeds and encoding the decoded
  fields with \<open>_build_schema_resource\<close> gives back the \<open>fields\<close> array of \<open>x\<close>.
\<close>

theorem schema_roundtrip:
  assumes "map_of x (VStr ''fields'') = Some (VList fs)"
    and "list_all (canonical_field False) fs"
  shows "\<exists>schema. parse_schema_resource (VDict x) = Inr (PyList schema)
                 \<and> build_schema_resource schema = fs"
proof -
  from roundtrip_both(2) [of fs] assms(2) obtain schema where
    "parse_schema_loop fs = Inr schema" and "build_schema_resource schema = fs" by blast
  with assms(1) show ?thesis by (simp add: dict_contains_def dict_getitem_def)
qed

text \<open>
  The round trip on a schema with a \<open>RECORD\<close> inside a \<open>RECORD\<close>, one description and a
  second top-level field.
\<close>

theorem schema_roundtrip_witness:
  "map_of [(VStr ''fields'', VList nested_fields)] (VStr ''fields'') = Some (VList nested_fields)
   \<and> list_all (canonical_field False) nested_fields
   \<and> (\<exists>schema. parse_schema_resource (VDict [(VStr ''fields'', VList nested_fields)])
                   = Inr (PyList schema)
               \<and> build_schema_resource schema = nested_fields)"
proof -
  have h1: "map_of [(VStr ''fields'', VList nested_fields)] (VStr ''fields'')
              = Some (VList nested_fields)" by simp
  have h2: "list_all (canonical_field False) nested_fields"
    by (simp add: nested_fields_def dict_contains_def)
  from schema_roundtrip [OF h1 h2] h1 h2 show ?thesis by blast
qed

text \<open>
  With \<open>mode\<close> among the keys that may be omitted the round trip fails: the field object
  \<open>{"name": "a", "type": "STRING"}\<close> is canonical in that sense, decodes to a field of
  mode \<open>NULLABLE\<close> (the decoder's default), and the encoder, which always writes \<open>mode\<close>,
  returns an object with three keys.
\<close>

theorem schema_roundtrip_counterexample:
  "canonical_field True (VDict [(VStr ''name'', VStr ''a''), (VStr ''type'', VStr ''STRING'')])
   \<and> parse_schema_resource
         (VDict [(VStr ''fields'',
                  VList [VDict [(VStr ''name'', VStr ''a''), (VStr ''type'', VStr ''STRING'')]])])
       = Inr (PyList [SchemaField (VStr ''a'') (VStr ''STRING'') (VStr ''NULLABLE'') VNone []])
   \<and> build_schema_resource [SchemaField (VStr ''a'') (VStr ''STRING'') (VStr ''NULLABLE'') VNone []]
       = [VDict [(VStr ''name'', VStr ''a''), (VStr ''type'', VStr ''STRING''),
                 (VStr ''mode'', VStr ''NULLABLE'')]]
   \<and> [VDict [(VStr ''name'', VStr ''a''), (VStr ''type'', VStr ''STRING''),
              (VStr ''mode'', VStr ''NULLABLE'')]]
       \<noteq> [VDict [(VStr ''name'', VStr ''a''), (VStr ''type'', VStr ''STRING'')]]"
  by (simp add: dict_contains_def dict_getitem_def dict_get_def)

text \<open>
  Claim C2. Decoding a JSON object that has no \<open>fields\<close> key yields the empty tuple
  \<open>()\<close>. Decoding a \<open>RECORD\<close> field object whose \<open>fields\<close> array is empty yields the empty
  list \<open>[]\<close>, which Python tells apart from \<open>()\<close>: the two results differ.
\<close>

theorem no_fields_key_empty_tuple:
  assumes "\<not> dict_contains info (VStr ''fields'')"
  shows "parse_schema_resource (VDict info) = Inr (PyTuple [])
       \<and> (\<forall>r. map_of r (VStr ''type'') = Some (VStr ''RECORD'')
               \<and> map_of r (VStr ''fields'') = Some (VList [])
             \<longrightarrow> parse_schema_resource (VDict r) = Inr (PyList [])
                 \<and> parse_schema_resource (VDict r) \<noteq> parse_schema_resource (VDict info))"
  using assms by (simp add: dict_contains_def dict_getitem_def)

text \<open>A leaf field object without \<open>fields\<close>, and a \<open>RECORD\<close> with no children.\<close>

theorem no_fields_key_empty_tuple_witness:
  "\<not> dict_contains [(VStr ''name'', VStr ''a''), (VStr ''type'', VStr ''STRING'')] (VStr ''fields'')
   \<and> parse_schema_resource (VDict [(VStr ''name'', VStr ''a''), (VStr ''type'', VStr ''STRING'')])
       = Inr (PyTuple [])
   \<and> map_of [(VStr ''name'', VStr ''r''), (VStr ''type'', VStr ''RECORD''),
              (VStr ''fields'', VList [])] (VStr ''type'') = Some (VStr ''RECORD'')
   \<and> map_of [(VStr ''name'', VStr ''r''), (VStr ''type'', VStr ''RECORD''),
              (VStr ''fields'', VList [])] (VStr ''fields'') = Some (VList [])
   \<and> parse_schema_resource (VDict [(VStr ''name'', VStr ''r''), (VStr ''type'', VStr ''RECORD''),
                                    (VStr ''fields'', VList [])])
       = Inr (PyList [])"
proof -
  have h: "\<not> dict_contains [(VStr ''name'', VStr ''a''), (VStr ''type'', VStr ''STRING'')]
                (VStr ''fields'')"
    by (simp add: dict_contains_def)
  have r1: "map_of [(VStr ''name'', VStr ''r''), (VStr ''type'', VStr ''RECORD''),
              (VStr ''fields'', VList [])] (VStr ''type'') = Some (VStr ''RECORD'')" by simp
  have r2: "map_of [(VStr ''name'', VStr ''r''), (VStr ''type'', VStr ''RECORD''),
              (VStr ''fields'', VList [])] (VStr ''fields'') = Some (VList [])" by simp
  from no_fields_key_empty_tuple [OF h] r1 r2 h show ?thesis by blast
qed

section \<open>Claims about rows\<close>

subsection \<open>The projection loop\<close>

lemma row_value_known:
  assumes "mode f \<in> set known_modes" and "hashable (name f)"
  shows "row_value m f =
           (if missing_required m f then Inl (KeyError (name f)) else Inr (projected_value m f))"
  using assms
  by (auto simp: row_value_def known_modes_def missing_required_def projected_value_def
                 dict_getitem_def dict_get_def dict_contains_def split: option.splits)

lemma row_value_unknown:
  "\<not> known_mode f \<Longrightarrow> row_value m f = Inl (ValueError ''Unknown field mode: {}'' [mode f])"
  by (auto simp: row_value_def known_mode_def known_modes_def)

lemma row_from_mapping_loop_known:
  assumes "\<forall>f\<in>set schema. mode f \<in> set known_modes \<and> hashable (name f)"
  shows "row_from_mapping_loop m schema =
           (case find (missing_required m) schema of
              None \<Rightarrow> Inr (map (projected_value m) schema)
            | Some f \<Rightarrow> Inl (KeyError (name f)))"
  using assms
  by (induction schema) (auto simp: row_value_known split: option.splits)

lemma row_loop_fails:
  "g \<in> set schema \<Longrightarrow> \<not> known_mode g \<Longrightarrow> \<exists>e. row_from_mapping_loop m schema = Inl e"
proof (induction schema)
  case Nil
  then show ?case by simp
next
  case (Cons f schema)
  show ?case
  proof (cases "row_value m f")
    case (Inl e)
    then show ?thesis by simp
  next
    case (Inr v)
    with Cons.prems have "g \<noteq> f" by (auto simp: row_value_unknown)
    with Cons obtain e where "row_from_mapping_loop m schema = Inl e" by auto
    with Inr show ?thesis by simp
  qed
qed

lemma row_loop_first_unknown:
  assumes "\<forall>f\<in>set pre. known_mode f \<and> hashable (name f)" and "\<not> known_mode g"
  shows "row_from_mapping_loop m (pre @ g # post) =
           Inl (case find (missing_required m) pre of
                  None \<Rightarrow> ValueError ''Unknown field mode: {}'' [mode g]
                | Some f \<Rightarrow> KeyError (name f))"
  using assms
  by (induction pre)
     (auto simp: row_value_unknown row_value_known known_mode_def split: option.splits)

subsection \<open>Mapping to row\<close>

text \<open>
  Claim C4. On a table whose schema is not empty and whose fields have the modes
  \<open>REQUIRED\<close>, \<open>NULLABLE\<close> or \<open>REPEATED\<close> (and names that can be dictionary keys),
  \<open>row_from_mapping\<close> fails with the \<open>KeyError\<close> of the first \<open>REQUIRED\<close> field that the
  mapping lacks (the spec's MissingRequiredField); when there is none it returns the
  tuple that has, for each schema field in declared order, the mapping's value, or the
  empty sequence for an absent \<open>REPEATED\<close> field, or \<open>None\<close> for an absent \<open>NULLABLE\<close> one.
\<close>

theorem row_from_mapping_schema_order:
  assumes "t_schema t \<noteq> []"
    and "\<forall>f\<in>set (t_schema t). mode f \<in> set known_modes \<and> hashable (name f)"
  shows "row_from_mapping t mapping =
           (case find (missing_required mapping) (t_schema t) of
              None \<Rightarrow> Inr (VTuple (map (projected_value mapping) (t_schema t)))
            | Some f \<Rightarrow> Inl (KeyError (name f)))"
  using assms(1) row_from_mapping_loop_known [OF assms(2), of mapping]
  by (simp add: row_from_mapping_def split: option.splits)

text \<open>
  The spec's example: schema \<open>[REQUIRED "a", REPEATED "b", NULLABLE "c"]\<close> and mapping
  \<open>{"a": 1}\<close> give \<open>(1, (), None)\<close>; a mapping without \<open>"a"\<close> fails.
\<close>

theorem row_from_mapping_schema_order_witness:
  "t_schema abc_table \<noteq> []
   \<and> list_all (\<lambda>f. mode f \<in> set known_modes \<and> hashable (name f)) (t_schema abc_table)
   \<and> row_from_mapping abc_table [(VStr ''a'', VInt 1)] = Inr (VTuple [VInt 1, VTuple [], VNone])
   \<and> row_from_mapping abc_table [(VStr ''b'', VInt 1)] = Inl (KeyError (VStr ''a''))"
proof -
  have h1: "t_schema abc_table \<noteq> []" by (simp add: abc_table_def)
  have h2: "\<forall>f\<in>set (t_schema abc_table). mode f \<in> set known_modes \<and> hashable (name f)"
    by (simp add: abc_table_def known_modes_def)
  show ?thesis
    using h1 h2 row_from_mapping_schema_order [OF h1 h2, of "[(VStr ''a'', VInt 1)]"]
      row_from_mapping_schema_order [OF h1 h2, of "[(VStr ''b'', VInt 1)]"]
    by (simp add: abc_table_def missing_required_def projected_value_def dict_contains_def
                  known_modes_def)
qed

text \<open>
  Claim C5, amended. If some schema field has a mode outside \<open>REQUIRED\<close>, \<open>NULLABLE\<close>,
  \<open>REPEATED\<close>, \<open>row_from_mapping\<close> never returns a row. The fields are visited in
  declared order, so the exception is the \<open>ValueError\<close> \<open>Unknown field mode\<close> for the
  first such field (the spec's UnknownFieldMode) when every \<open>REQUIRED\<close> field declared
  before it is in the mapping, and otherwise the \<open>KeyError\<close> of the first \<open>REQUIRED\<close> field
  before it that the mapping lacks.
\<close>

theorem unknown_mode_fails:
  assumes "g \<in> set (t_schema t)" and "\<not> known_mode g"
  shows "(\<exists>e. row_from_mapping t mapping = Inl e)
       \<and> ((\<forall>f\<in>set (takeWhile known_mode (t_schema t)). hashable (name f)) \<longrightarrow>
            row_from_mapping t mapping =
              Inl (case find (missing_required mapping) (takeWhile known_mode (t_schema t)) of
                     None \<Rightarrow> ValueError ''Unknown field mode: {}''
                                [mode (hd (dropWhile known_mode (t_schema t)))]
                   | Some f \<Rightarrow> KeyError (name f)))"
proof -
  let ?s = "t_schema t"
  from assms have ne: "?s \<noteq> []" by auto
  from assms obtain e where e: "row_from_mapping_loop mapping ?s = Inl e"
    using row_loop_fails by blast
  have part1: "\<exists>e. row_from_mapping t mapping = Inl e"
    using ne e by (simp add: row_from_mapping_def)
  from assms have dne: "dropWhile known_mode ?s \<noteq> []"
    by (auto simp: dropWhile_eq_Nil_conv)
  let ?g = "hd (dropWhile known_mode ?s)" and ?post = "tl (dropWhile known_mode ?s)"
  from dne have d: "dropWhile known_mode ?s = ?g # ?post" by simp
  from dne have ng: "\<not> known_mode ?g" using hd_dropWhile [of known_mode ?s] by auto
  have split: "takeWhile known_mode ?s @ ?g # ?post = ?s"
    using d takeWhile_dropWhile_id [of known_mode ?s] by simp
  have part2: "row_from_mapping t mapping =
              Inl (case find (missing_required mapping) (takeWhile known_mode ?s) of
                     None \<Rightarrow> ValueError ''Unknown field mode: {}'' [mode ?g]
                   | Some f \<Rightarrow> KeyError (name f))"
    if h: "\<forall>f\<in>set (takeWhile known_mode ?s). hashable (name f)"
  proof -
    have k: "\<forall>f\<in>set (takeWhile known_mode ?s). known_mode f \<and> hashable (name f)"
      using h by (auto dest: set_takeWhileD)
    have "row_from_mapping_loop mapping (takeWhile known_mode ?s @ ?g # ?post) =
           Inl (case find (missing_required mapping) (takeWhile known_mode ?s) of
                  None \<Rightarrow> ValueError ''Unknown field mode: {}'' [mode ?g]
                | Some f \<Rightarrow> KeyError (name f))"
      by (rule row_loop_first_unknown [OF k ng])
    then have "row_from_mapping_loop mapping ?s =
           Inl (case find (missing_required mapping) (takeWhile known_mode ?s) of
                  None \<Rightarrow> ValueError ''Unknown field mode: {}'' [mode ?g]
                | Some f \<Rightarrow> KeyError (name f))" unfolding split .
    then show ?thesis using ne unfolding row_from_mapping_def by simp
  qed
  from part1 part2 show ?thesis by blast
qed

text \<open>
  Schema \<open>[REQUIRED "a", BOGUS "b"]\<close> with \<open>"a"\<close> in the mapping: the unknown mode is
  reported.
\<close>

theorem unknown_mode_fails_witness:
  "SchemaField (VStr ''b'') (VStr ''STRING'') (VStr ''BOGUS'') VNone []
     \<in> set (t_schema required_then_bogus)
   \<and> \<not> known_mode (SchemaField (VStr ''b'') (VStr ''STRING'') (VStr ''BOGUS'') VNone [])
   \<and> list_all (\<lambda>f. hashable (name f)) (takeWhile known_mode (t_schema required_then_bogus))
   \<and> row_from_mapping required_then_bogus [(VStr ''a'', VInt 1)]
       = Inl (ValueError ''Unknown field mode: {}'' [VStr ''BOGUS''])"
proof -
  let ?g = "SchemaField (VStr ''b'') (VStr ''STRING'') (VStr ''BOGUS'') VNone []"
  have h1: "?g \<in> set (t_schema required_then_bogus)" by (simp add: required_then_bogus_def)
  have h2: "\<not> known_mode ?g" by (simp add: known_mode_def known_modes_def)
  have h3: "\<forall>f\<in>set (takeWhile known_mode (t_schema required_then_bogus)). hashable (name f)"
    by (simp add: required_then_bogus_def known_mode_def known_modes_def)
  from unknown_mode_fails [OF h1 h2, of "[(VStr ''a'', VInt 1)]"] h3
  have "row_from_mapping required_then_bogus [(VStr ''a'', VInt 1)] =
          Inl (case find (missing_required [(VStr ''a'', VInt 1)])
                      (takeWhile known_mode (t_schema required_then_bogus)) of
                 None \<Rightarrow> ValueError ''Unknown field mode: {}''
                            [mode (hd (dropWhile known_mode (t_schema required_then_bogus)))]
               | Some f \<Rightarrow> KeyError (name f))" by blast
  then have "row_from_mapping required_then_bogus [(VStr ''a'', VInt 1)]
       = Inl (ValueError ''Unknown field mode: {}'' [VStr ''BOGUS''])"
    by (simp add: required_then_bogus_def known_mode_def known_modes_def missing_required_def
                  dict_contains_def)
  with h1 h2 h3 show ?thesis by (simp add: list_all_iff)
qed

text \<open>
  The same schema with an empty mapping: the field of mode \<open>BOGUS\<close> is there, and the call
  fails with the \<open>KeyError\<close> for \<open>"a"\<close>, not with the unknown-mode error.
\<close>

theorem unknown_mode_counterexample:
  "\<not> known_mode (SchemaField (VStr ''b'') (VStr ''STRING'') (VStr ''BOGUS'') VNone [])
   \<and> row_from_mapping required_then_bogus [] = Inl (KeyError (VStr ''a''))
   \<and> row_from_mapping required_then_bogus []
       \<noteq> Inl (ValueError ''Unknown field mode: {}'' [VStr ''BOGUS''])"
  by (simp add: required_then_bogus_def row_from_mapping_def row_value_def dict_getitem_def
                known_mode_def known_modes_def)

text \<open>
  Claim C10. On a table whose schema is the empty sequence, \<open>row_from_mapping\<close> and
  \<open>insert_data\<close> both raise \<open>ValueError\<close> with the message that starts
  \<open>Table has no schema\<close>, whatever the mapping, the rows and the other arguments are;
  no row is produced and no request is issued.
\<close>

theorem schemaless_table_rejected:
  assumes "t_schema t = []"
  shows "row_from_mapping t mapping = Inl (ValueError TABLE_HAS_NO_SCHEMA [])
       \<and> insert_data E t rows row_ids skip_invalid_rows ignore_unknown_values template_suffix
           = (Inl (ValueError TABLE_HAS_NO_SCHEMA []), [])
       \<and> take 19 TABLE_HAS_NO_SCHEMA = ''Table has no schema''"
  using assms by (simp add: row_from_mapping_def insert_data_def TABLE_HAS_NO_SCHEMA_def)

theorem schemaless_table_rejected_witness:
  "t_schema schemaless_table = []
   \<and> row_from_mapping schemaless_table [(VStr ''a'', VInt 1)]
       = Inl (ValueError TABLE_HAS_NO_SCHEMA [])
   \<and> insert_data example_env schemaless_table [[VInt 1]] None VNone VNone VNone
       = (Inl (ValueError TABLE_HAS_NO_SCHEMA []), [])"
proof -
  have h: "t_schema schemaless_table = []" by (simp add: schemaless_table_def)
  from schemaless_table_rejected [OF h] h show ?thesis by blast
qed

subsection \<open>Row encoding for bulk insert\<close>









section \<open>Claims about the property bag\<close>

lemma Table_set_properties_result:
  assumes "Table_set_properties E t api_response = (None, t')"
  shows "\<exists>c1 c2 cleaned.
           convert_if_present (py_float E) ''creationTime''
             (snd (dict_pop api_response (VStr ''schema'') (VDict [(VStr ''fields'', VTuple [])])))
             = Inr c1
         \<and> convert_if_present (py_float E) ''lastModifiedTime'' c1 = Inr c2
         \<and> convert_if_present (py_float E) ''expirationTime'' c2 = Inr cleaned
         \<and> t_properties t' = dict_update_all [] cleaned"
  using assms
  by (auto simp: Table_set_properties_def Let_def split: sum.splits)

lemma Dataset_set_properties_result:
  assumes "Dataset_set_properties E d api_response = (None, d')"
  shows "\<exists>c1 c2 cleaned.
           convert_if_present (py_float E) ''creationTime''
             (snd (dict_pop api_response (VStr ''access'') (VTuple []))) = Inr c1
         \<and> convert_if_present (py_float E) ''lastModifiedTime'' c1 = Inr c2
         \<and> convert_if_present (py_int E) ''defaultTableExpirationMs'' c2 = Inr cleaned
         \<and> d_properties d' = dict_update_all [] cleaned"
  using assms
  by (auto simp: Dataset_set_properties_def Let_def split: sum.splits)

text \<open>
  Claim C9. When \<open>_set_properties\<close> returns without raising, on a \<open>Table\<close> or on a
  \<open>Dataset\<close>, the property bag it leaves has exactly the keys of the server response
  other than \<open>schema\<close> (for a table) or \<open>access\<close> (for a dataset), and it is the same bag
  whatever object the method was called on: nothing of the earlier properties, fetched
  or set locally, is kept.
\<close>

theorem set_properties_replaces:
  "(Table_set_properties E t t_response = (None, t') \<longrightarrow>
      dict_keys (t_properties t') = dict_keys t_response - {VStr ''schema''}
      \<and> (\<forall>u u'. Table_set_properties E u t_response = (None, u')
                   \<longrightarrow> t_properties u' = t_properties t'))
   \<and> (Dataset_set_properties E d d_response = (None, d') \<longrightarrow>
      dict_keys (d_properties d') = dict_keys d_response - {VStr ''access''}
      \<and> (\<forall>u u'. Dataset_set_properties E u d_response = (None, u')
                   \<longrightarrow> d_properties u' = d_properties d'))"
proof (intro conjI impI allI)
  assume a: "Table_set_properties E t t_response = (None, t')"
  from Table_set_properties_result [OF a]
  show "dict_keys (t_properties t') = dict_keys t_response - {VStr ''schema''}"
    by (auto simp: dict_keys_update_all dict_keys_pop dict_keys_def [of "[]"]
             dest!: dict_keys_convert_if_present)
next
  fix u u'
  assume a: "Table_set_properties E t t_response = (None, t')"
    and b: "Table_set_properties E u t_response = (None, u')"
  from Table_set_properties_result [OF a] Table_set_properties_result [OF b]
  show "t_properties u' = t_properties t'" by auto
next
  assume a: "Dataset_set_properties E d d_response = (None, d')"
  from Dataset_set_properties_result [OF a]
  show "dict_keys (d_properties d') = dict_keys d_response - {VStr ''access''}"
    by (auto simp: dict_keys_update_all dict_keys_pop dict_keys_def [of "[]"]
             dest!: dict_keys_convert_if_present)
next
  fix u u'
  assume a: "Dataset_set_properties E d d_response = (None, d')"
    and b: "Dataset_set_properties E u d_response = (None, u')"
  from Dataset_set_properties_result [OF a] Dataset_set_properties_result [OF b]
  show "d_properties u' = d_properties d'" by auto
qed

text \<open>
  A table and a dataset that hold \<open>friendlyName\<close> and an old \<open>etag\<close>, refreshed from
  responses without \<open>friendlyName\<close>: the key is gone afterwards.
\<close>

theorem set_properties_replaces_witness:
  "Table_set_properties example_env stale_table fetched_table =
     (None, \<lparr>t_project = ''p'', t_dataset_id = ''d'', t_table_id = ''t'',
        t_properties = [(VStr ''etag'', VStr ''v2''),
                        (VStr ''creationTime'', VObject ''float'' [VStr ''1437767599006''])],
        t_schema = [SchemaField (VStr ''a'') (VStr ''STRING'') (VStr ''REQUIRED'') VNone []]\<rparr>)
   \<and> dict_keys [(VStr ''etag'', VStr ''v2''),
                 (VStr ''creationTime'', VObject ''float'' [VStr ''1437767599006''])]
       = dict_keys fetched_table - {VStr ''schema''}
   \<and> VStr ''friendlyName'' \<in> dict_keys (t_properties stale_table)
   \<and> VStr ''friendlyName'' \<notin> dict_keys fetched_table - {VStr ''schema''}
   \<and> Dataset_set_properties example_env stale_dataset fetched_dataset =
     (None, \<lparr>d_project = ''p'', d_dataset_id = ''ds'', d_client = VNone,
        d_properties = [(VStr ''etag'', VStr ''v2''),
                        (VStr ''defaultTableExpirationMs'', VInt 5000)],
        d_access_entries =
          [AccessEntry (VStr ''OWNER'') (VStr ''userByEmail'') (VStr ''a@example.com'')]\<rparr>)
   \<and> dict_keys [(VStr ''etag'', VStr ''v2''), (VStr ''defaultTableExpirationMs'', VInt 5000)]
       = dict_keys fetched_dataset - {VStr ''access''}
   \<and> VStr ''friendlyName'' \<in> dict_keys (d_properties stale_dataset)
   \<and> VStr ''friendlyName'' \<notin> dict_keys fetched_dataset - {VStr ''access''}"
proof -
  let ?t = "\<lparr>t_project = ''p'', t_dataset_id = ''d'', t_table_id = ''t'',
        t_properties = [(VStr ''etag'', VStr ''v2''),
                        (VStr ''creationTime'', VObject ''float'' [VStr ''1437767599006''])],
        t_schema = [SchemaField (VStr ''a'') (VStr ''STRING'') (VStr ''REQUIRED'') VNone []]\<rparr>"
  let ?d = "\<lparr>d_project = ''p'', d_dataset_id = ''ds'', d_client = VNone,
        d_properties = [(VStr ''etag'', VStr ''v2''),
                        (VStr ''defaultTableExpirationMs'', VInt 5000)],
        d_access_entries =
          [AccessEntry (VStr ''OWNER'') (VStr ''userByEmail'') (VStr ''a@example.com'')]\<rparr>"
  have a: "Table_set_properties example_env stale_table fetched_table = (None, ?t)"
    by code_simp
  have b: "Dataset_set_properties example_env stale_dataset fetched_dataset = (None, ?d)"
    by code_simp
  have k: "VStr ''friendlyName'' \<in> dict_keys (t_properties stale_table)"
    "VStr ''friendlyName'' \<notin> dict_keys fetched_table - {VStr ''schema''}"
    "VStr ''friendlyName'' \<in> dict_keys (d_properties stale_dataset)"
    "VStr ''friendlyName'' \<notin> dict_keys fetched_dataset - {VStr ''access''}"
    by (simp_all add: dict_keys_def stale_table_def fetched_table_def stale_dataset_def
                      fetched_dataset_def)
  from set_properties_replaces
         [of example_env stale_table fetched_table ?t stale_dataset fetched_dataset ?d] a b
  have "dict_keys (t_properties ?t) = dict_keys fetched_table - {VStr ''schema''}"
    and "dict_keys (d_properties ?d) = dict_keys fetched_dataset - {VStr ''access''}"
    by blast+
  with a b k show ?thesis by simp
qed

section \<open>Claims about the partial update\<close>

subsection \<open>Splitting and joining words\<close>





subsection \<open>The loop of \<open>update_dataset\<close>\<close>







subsection \<open>Body, header and unknown names\<close>







end
